theory Spec2Isabelle
  imports Complex_Main "HOL-Library.Log_Nat"
begin

section \<open>JavaScript numbers\<close>

text \<open>
  The service computes on JavaScript numbers, which are IEEE 754 binary64 values.
  A finite number is carried here by its exact rational value; \<open>NaN\<close> and the two
  infinities are separate constructors. The two signed zeros are identified
  (\<open>Fin 0\<close>): none of the functions below tells them apart, except a division by
  zero, where the divisor is taken to be \<open>+0\<close>.

  \<open>round64\<close> is the rounding of an exact result to the nearest binary64 value,
  ties to the even significand: 53 significant bits, the least exponent of a
  normal number is \<open>-1022\<close>, and a rounded magnitude of \<open>2^1024\<close> or more is an
  infinity.
\<close>

datatype jsnum = NaN | PInf | NInf | Fin rat

definition ilog2 :: "rat \<Rightarrow> int" where
  \<comment> \<open>\<open>\<lfloor>log\<^sub>2 q\<rfloor>\<close> for \<open>q > 0\<close>, from the bit lengths of numerator and denominator\<close>
  "ilog2 q = (case quotient_of q of (a, b) \<Rightarrow>
     (let d = bitlen a - bitlen b in if 2 powi d \<le> q then d else d - 1))"

definition round_half_even :: "rat \<Rightarrow> int" where
  "round_half_even x =
     (let f = \<lfloor>x\<rfloor>; r = x - of_int f
      in if r < 1 / 2 then f
         else if 1 / 2 < r then f + 1
         else if even f then f else f + 1)"

definition round64 :: "rat \<Rightarrow> jsnum" where
  "round64 q =
     (if q = 0 then Fin 0
      else
        let E = max (ilog2 \<bar>q\<bar>) (- 1022) - 52;
            v = of_int (round_half_even (q / 2 powi E)) * 2 powi E
        in if 2 powi 1024 \<le> v then PInf
           else if v \<le> - (2 powi 1024) then NInf
           else Fin v)"

definition is_double :: "rat \<Rightarrow> bool" where
  \<comment> \<open>the rational is the value of a finite binary64 number\<close>
  "is_double q = (round64 q = Fin q)"

definition js_lit :: "rat \<Rightarrow> jsnum" where
  \<comment> \<open>a decimal literal, or \<open>Number(s)\<close> of a decimal string: the nearest binary64 value\<close>
  "js_lit q = round64 q"

fun js_sgn :: "jsnum \<Rightarrow> int" where
  "js_sgn NaN = 0"
| "js_sgn PInf = 1"
| "js_sgn NInf = - 1"
| "js_sgn (Fin q) = (if q = 0 then 0 else if 0 < q then 1 else - 1)"

definition inf_of_sign :: "int \<Rightarrow> jsnum" where
  "inf_of_sign s = (if s = 0 then NaN else if 0 < s then PInf else NInf)"

fun js_neg :: "jsnum \<Rightarrow> jsnum" where
  "js_neg (Fin q) = Fin (- q)"
| "js_neg PInf = NInf"
| "js_neg NInf = PInf"
| "js_neg NaN = NaN"

fun js_mul :: "jsnum \<Rightarrow> jsnum \<Rightarrow> jsnum" where
  "js_mul NaN y = NaN"
| "js_mul x NaN = NaN"
| "js_mul (Fin a) (Fin b) = round64 (a * b)"
| "js_mul x y = inf_of_sign (js_sgn x * js_sgn y)"

fun js_div :: "jsnum \<Rightarrow> jsnum \<Rightarrow> jsnum" where
  "js_div NaN y = NaN"
| "js_div x NaN = NaN"
| "js_div (Fin a) (Fin b) =
     (if b = 0 then inf_of_sign (js_sgn (Fin a)) else round64 (a / b))"
| "js_div (Fin a) y = Fin 0"
| "js_div x (Fin b) = inf_of_sign (js_sgn x * (if b < 0 then - 1 else 1))"
| "js_div x y = NaN"

fun js_lt :: "jsnum \<Rightarrow> jsnum \<Rightarrow> bool" where
  "js_lt NaN y = False"
| "js_lt x NaN = False"
| "js_lt (Fin a) (Fin b) = (a < b)"
| "js_lt PInf y = False"
| "js_lt x NInf = False"
| "js_lt NInf y = True"
| "js_lt x PInf = True"

definition js_gt :: "jsnum \<Rightarrow> jsnum \<Rightarrow> bool" where
  "js_gt x y = js_lt y x"

definition js_le :: "jsnum \<Rightarrow> jsnum \<Rightarrow> bool" where
  "js_le x y = (x \<noteq> NaN \<and> y \<noteq> NaN \<and> \<not> js_lt y x)"

definition js_strict_neq :: "jsnum \<Rightarrow> jsnum \<Rightarrow> bool" where
  \<comment> \<open>\<open>x !== y\<close> on two numbers: \<open>NaN\<close> differs from everything, itself included\<close>
  "js_strict_neq x y = (x = NaN \<or> y = NaN \<or> x \<noteq> y)"

fun Math_round :: "jsnum \<Rightarrow> jsnum" where
  \<comment> \<open>the nearest integer, a tie going up\<close>
  "Math_round (Fin q) = Fin (of_int \<lfloor>q + 1 / 2\<rfloor>)"
| "Math_round x = x"

fun Math_floor :: "jsnum \<Rightarrow> jsnum" where
  "Math_floor (Fin q) = Fin (of_int \<lfloor>q\<rfloor>)"
| "Math_floor x = x"

section \<open>JavaScript values at run time\<close>

text \<open>
  \<open>validatePaymentAmount\<close> declares its parameter a number but tests it at run
  time (\<open>!amount || typeof amount !== 'number'\<close>), so the model takes any value.
\<close>

datatype jsval = JUndefined | JNull | JBoolean bool | JString string | JNumber jsnum | JObject

fun truthy :: "jsval \<Rightarrow> bool" where
  "truthy JUndefined = False"
| "truthy JNull = False"
| "truthy (JBoolean b) = b"
| "truthy (JString s) = (s \<noteq> [])"
| "truthy (JNumber x) = (x \<noteq> NaN \<and> x \<noteq> Fin 0)"
| "truthy JObject = True"

fun typeof :: "jsval \<Rightarrow> string" where
  "typeof JUndefined = ''undefined''"
| "typeof JNull = ''object''"
| "typeof (JBoolean b) = ''boolean''"
| "typeof (JString s) = ''string''"
| "typeof (JNumber x) = ''number''"
| "typeof JObject = ''object''"

fun the_number :: "jsval \<Rightarrow> jsnum" where
  \<comment> \<open>read only behind the \<open>typeof\<close> guard, where the value is a number\<close>
  "the_number (JNumber x) = x"
| "the_number v = NaN"

section \<open>Strings\<close>

text \<open>
  Strings are byte lists; the naira sign U+20A6 of the source's messages is
  written as its three UTF-8 bytes.
\<close>

definition naira_sign :: string where
  "naira_sign = [CHR 0xE2, CHR 0x82, CHR 0xA6]"

definition digit_char :: "nat \<Rightarrow> char" where
  "digit_char d = ''0123456789'' ! d"

fun decimal_nat :: "nat \<Rightarrow> string" where
  "decimal_nat n = (if n < 10 then [digit_char n] else decimal_nat (n div 10) @ [digit_char (n mod 10)])"

declare decimal_nat.simps [simp del]

definition decimal :: "int \<Rightarrow> string" where
  "decimal i = (if i < 0 then CHR ''-'' # decimal_nat (nat (- i)) else decimal_nat (nat i))"

definition Number_toString :: "jsnum \<Rightarrow> string option" where
  \<comment> \<open>\<open>`${x}`\<close> of a number. An integer below \<open>2^53\<close> in magnitude prints as its
      decimal digits; the shortest-digits and exponent forms of the other finite
      numbers are outside the model (\<open>None\<close>).\<close>
  "Number_toString x =
     (case x of
        NaN \<Rightarrow> Some ''NaN''
      | PInf \<Rightarrow> Some ''Infinity''
      | NInf \<Rightarrow> Some ''-Infinity''
      | Fin q \<Rightarrow>
          if q = of_int \<lfloor>q\<rfloor> \<and> \<bar>q\<bar> < 2 ^ 53 then Some (decimal \<lfloor>q\<rfloor>) else None)"

section \<open>Amount validation\<close>

record validation =
  valid :: bool
  error :: "string option"

definition validatePaymentAmount :: "jsval \<Rightarrow> validation" where
  "validatePaymentAmount amount =
     (if \<not> truthy amount \<or> typeof amount \<noteq> ''number'' then
        \<lparr>valid = False, error = Some ''Amount must be a valid number''\<rparr>
      else if js_le (the_number amount) (Fin 0) then
        \<lparr>valid = False, error = Some ''Amount must be greater than zero''\<rparr>
      else if js_lt (the_number amount) (Fin 10) then
        \<lparr>valid = False, error = Some (''Minimum amount is '' @ naira_sign @ ''10'')\<rparr>
      else if js_gt (the_number amount) (js_lit (99999999 / 100)) then
        \<lparr>valid = False,
         error = Some (''Amount exceeds maximum limit ('' @ naira_sign @ ''999,999.99)'')\<rparr>
      else if js_strict_neq (Math_round (js_mul (the_number amount) (Fin 100)))
                (js_mul (the_number amount) (Fin 100)) then
        \<lparr>valid = False, error = Some ''Amount cannot have more than 2 decimal places''\<rparr>
      else \<lparr>valid = True, error = None\<rparr>)"

section \<open>Currency units and transaction references\<close>

definition nairaToKobo :: "jsnum \<Rightarrow> jsnum" where
  "nairaToKobo nairaAmount = Math_round (js_mul nairaAmount (Fin 100))"

definition koboToNaira :: "jsnum \<Rightarrow> jsnum" where
  "koboToNaira koboAmount = js_div koboAmount (Fin 100)"

text \<open>
  \<open>Date.now()\<close> and \<open>Math.random()\<close> are inputs of the model: the clock reading
  \<open>now\<close> is an integer number of milliseconds, the draw \<open>rnd\<close> the value of a
  binary64 number.
\<close>

definition randomNum :: "rat \<Rightarrow> jsnum" where
  "randomNum rnd = Math_floor (js_mul (Fin rnd) (Fin 1000000))"

definition template_TXN :: "jsnum \<Rightarrow> jsnum \<Rightarrow> string option" where
  \<comment> \<open>\<open>`TXN_${timestamp}_${randomNum}`\<close>\<close>
  "template_TXN timestamp r =
     (case Number_toString timestamp of
        None \<Rightarrow> None
      | Some ts \<Rightarrow>
          (case Number_toString r of
             None \<Rightarrow> None
           | Some rs \<Rightarrow> Some (''TXN_'' @ ts @ ''_'' @ rs)))"

definition generateTransactionReference :: "int \<Rightarrow> rat \<Rightarrow> string option" where
  \<comment> \<open>the method of the service\<close>
  "generateTransactionReference now rnd = template_TXN (Fin (of_int now)) (randomNum rnd)"

definition form_generateTransactionReference :: "int \<Rightarrow> rat \<Rightarrow> string option" where
  \<comment> \<open>the copy in the form screen\<close>
  "form_generateTransactionReference now rnd =
     template_TXN (Fin (of_int now)) (randomNum rnd)"

section \<open>Receipts\<close>

datatype item_type = Text | Newline | Image | Separator

datatype image_type = Resource | Base64

record PrintItem =
  type :: item_type
  text_field :: "string option"
  isTitle :: "bool option"
  isBold :: "bool option"
  displayCenter :: "bool option"
  imageType :: "image_type option"
  resourceName :: "string option"
  base64Data :: "string option"

datatype completion = Completed | Cancelled

record PaymentResult =
  responseCode :: string
  responseMessage :: string
  isSuccessful :: bool
  transactionReference :: string
  rrn :: string
  amount :: jsnum
  cardType :: string
  transactionType :: string
  cardHolderName :: string
  cardExpiry :: string
  cardPan :: string
  aid :: string
  dateTime :: string
  txnDate :: jsnum
  authorizationCode :: string
  stan :: string
  authCode :: string
  transactionCurrencyType :: string
  timestamp :: jsnum
  status :: completion

record merchantInfo =
  name :: "string option"
  address :: "string option"
  phone :: "string option"

definition item :: "item_type \<Rightarrow> PrintItem" where
  \<comment> \<open>an object literal \<open>{ type: t }\<close>: every other property is absent\<close>
  "item t = \<lparr>type = t, text_field = None, isTitle = None, isBold = None,
     displayCenter = None, imageType = None, resourceName = None, base64Data = None\<rparr>"

definition optional_chain :: "'r option \<Rightarrow> ('r \<Rightarrow> 'a option) \<Rightarrow> 'a option" where
  \<comment> \<open>\<open>obj?.field\<close>\<close>
  "optional_chain obj field = (case obj of None \<Rightarrow> None | Some r \<Rightarrow> field r)"

fun truthy_opt :: "string option \<Rightarrow> bool" where
  "truthy_opt None = False"
| "truthy_opt (Some s) = (s \<noteq> [])"

fun string_of :: "string option \<Rightarrow> string" where
  \<comment> \<open>interpolation of an optional string in a template\<close>
  "string_of None = ''undefined''"
| "string_of (Some s) = s"

definition push_if :: "bool \<Rightarrow> 'a \<Rightarrow> 'a list" where
  \<comment> \<open>\<open>if (c) receipt.push(x)\<close>, as the items appended\<close>
  "push_if c x = (if c then [x] else [])"

text \<open>
  \<open>Number.prototype.toFixed\<close> and the \<open>Intl.NumberFormat\<close> formatter behind
  \<open>formatCurrency\<close> belong to the host; the receipts take them as parameters.
\<close>

definition createStandardReceipt ::
  "(jsnum \<Rightarrow> nat \<Rightarrow> string) \<Rightarrow> PaymentResult \<Rightarrow> merchantInfo option \<Rightarrow> PrintItem list" where
  "createStandardReceipt toFixed transactionData merchant =
     [(item Image)\<lparr>imageType := Some Resource, resourceName := Some ''logo''\<rparr>]
     @ push_if (truthy_opt (optional_chain merchant name))
         ((item Text)\<lparr>text_field := Some (string_of (optional_chain merchant name)),
            isTitle := Some True, displayCenter := Some True, isBold := Some True\<rparr>)
     @ push_if (truthy_opt (optional_chain merchant address))
         ((item Text)\<lparr>text_field := Some (string_of (optional_chain merchant address)),
            displayCenter := Some True\<rparr>)
     @ push_if (truthy_opt (optional_chain merchant phone))
         ((item Text)\<lparr>text_field := Some (''Tel: '' @ string_of (optional_chain merchant phone)),
            displayCenter := Some True\<rparr>)
     @ [item Separator]
     @ [(item Text)\<lparr>text_field := Some ''PAYMENT RECEIPT'',
          isTitle := Some True, displayCenter := Some True, isBold := Some True\<rparr>]
     @ [item Newline]
     @ [(item Text)\<lparr>text_field :=
            Some (''Amount: '' @ naira_sign @ toFixed (amount transactionData) 2),
          isBold := Some True\<rparr>]
     @ push_if (cardType transactionData \<noteq> [])
         ((item Text)\<lparr>text_field := Some (''Card Type: '' @ cardType transactionData)\<rparr>)
     @ push_if (cardPan transactionData \<noteq> [])
         ((item Text)\<lparr>text_field := Some (''PAN: '' @ cardPan transactionData)\<rparr>)
     @ push_if (rrn transactionData \<noteq> [])
         ((item Text)\<lparr>text_field := Some (''RRN: '' @ rrn transactionData)\<rparr>)
     @ [(item Text)\<lparr>text_field :=
            Some (''Reference: '' @ transactionReference transactionData)\<rparr>]
     @ push_if (dateTime transactionData \<noteq> [])
         ((item Text)\<lparr>text_field := Some (''Date: '' @ dateTime transactionData)\<rparr>)
     @ push_if (authorizationCode transactionData \<noteq> [])
         ((item Text)\<lparr>text_field :=
            Some (''Auth Code: '' @ authorizationCode transactionData)\<rparr>)
     @ push_if (stan transactionData \<noteq> [])
         ((item Text)\<lparr>text_field := Some (''STAN: '' @ stan transactionData)\<rparr>)
     @ [item Separator]
     @ [(item Text)\<lparr>text_field :=
            Some (if isSuccessful transactionData then ''APPROVED'' else ''DECLINED''),
          isTitle := Some True, displayCenter := Some True, isBold := Some True\<rparr>]
     @ [item Newline]
     @ [item Newline]
     @ [(item Text)\<lparr>text_field := Some ''Thank you for your business!'',
          displayCenter := Some True\<rparr>]
     @ [item Newline]
     @ [(item Text)\<lparr>text_field := Some ''Keep this receipt for your records'',
          displayCenter := Some True\<rparr>]"

definition createSimpleReceipt :: "(jsnum \<Rightarrow> string) \<Rightarrow> PaymentResult \<Rightarrow> PrintItem list" where
  "createSimpleReceipt formatCurrency transactionData =
     [(item Text)\<lparr>text_field := Some ''PAYMENT RECEIPT'',
        isTitle := Some True, displayCenter := Some True, isBold := Some True\<rparr>,
      item Separator,
      (item Text)\<lparr>text_field := Some (''Amount: '' @ formatCurrency (amount transactionData)),
        isBold := Some True\<rparr>,
      (item Text)\<lparr>text_field :=
        Some (''Reference: '' @ transactionReference transactionData)\<rparr>,
      (item Text)\<lparr>text_field :=
          Some (''Status: '' @ (if isSuccessful transactionData then ''APPROVED'' else ''DECLINED'')),
        isBold := Some True, displayCenter := Some True\<rparr>,
      item Separator,
      (item Text)\<lparr>text_field := Some ''Thank you!'', displayCenter := Some True\<rparr>]"

section \<open>Event listeners\<close>

text \<open>
  The service owns one event emitter and four subscription slots. The emitter is
  the host's: \<open>addListener\<close> registers a callback for an event name and returns a
  subscription, whose \<open>remove\<close> takes that registration out again. It is modelled
  as the list of its registrations, each under a fresh identifier.
\<close>

datatype event = OnPaymentCompleted | OnPaymentCancelled | OnPrintCompleted | OnPrintError

record 'cb emitter =
  registered :: "(nat \<times> event \<times> 'cb) list"
  next_id :: nat

definition addListener :: "'cb emitter \<Rightarrow> event \<Rightarrow> 'cb \<Rightarrow> nat \<times> 'cb emitter" where
  "addListener em ev cb =
     (next_id em,
      em\<lparr>registered := registered em @ [(next_id em, ev, cb)], next_id := Suc (next_id em)\<rparr>)"

definition remove_subscription :: "'cb emitter \<Rightarrow> nat \<Rightarrow> 'cb emitter" where
  "remove_subscription em sub = em\<lparr>registered := filter (\<lambda>r. fst r \<noteq> sub) (registered em)\<rparr>"

record 'cb service =
  eventEmitter :: "'cb emitter"
  paymentCompletedListener :: "nat option"
  paymentCancelledListener :: "nat option"
  printCompletedListener :: "nat option"
  printErrorListener :: "nat option"

record 'cb callbacks =
  onPaymentCompleted :: "'cb option"
  onPaymentCancelled :: "'cb option"
  onPrintCompleted :: "'cb option"
  onPrintError :: "'cb option"

definition new_service :: "'cb service" where
  \<comment> \<open>the constructor: a new emitter, every slot \<open>null\<close>\<close>
  "new_service = \<lparr>eventEmitter = \<lparr>registered = [], next_id = 0\<rparr>,
     paymentCompletedListener = None, paymentCancelledListener = None,
     printCompletedListener = None, printErrorListener = None\<rparr>"

definition removeEventListeners :: "'cb service \<Rightarrow> 'cb service" where
  "removeEventListeners s =
     (let s1 = (case paymentCompletedListener s of
                  Some l \<Rightarrow> s\<lparr>eventEmitter := remove_subscription (eventEmitter s) l,
                              paymentCompletedListener := None\<rparr>
                | None \<Rightarrow> s);
          s2 = (case paymentCancelledListener s1 of
                  Some l \<Rightarrow> s1\<lparr>eventEmitter := remove_subscription (eventEmitter s1) l,
                               paymentCancelledListener := None\<rparr>
                | None \<Rightarrow> s1);
          s3 = (case printCompletedListener s2 of
                  Some l \<Rightarrow> s2\<lparr>eventEmitter := remove_subscription (eventEmitter s2) l,
                               printCompletedListener := None\<rparr>
                | None \<Rightarrow> s2)
      in (case printErrorListener s3 of
            Some l \<Rightarrow> s3\<lparr>eventEmitter := remove_subscription (eventEmitter s3) l,
                         printErrorListener := None\<rparr>
          | None \<Rightarrow> s3))"

definition addEventListeners :: "'cb callbacks \<Rightarrow> 'cb service \<Rightarrow> 'cb service" where
  "addEventListeners cbs s =
     (let s0 = removeEventListeners s;
          s1 = (case onPaymentCompleted cbs of
                  Some cb \<Rightarrow>
                    (case addListener (eventEmitter s0) OnPaymentCompleted cb of
                       (l, em) \<Rightarrow> s0\<lparr>eventEmitter := em, paymentCompletedListener := Some l\<rparr>)
                | None \<Rightarrow> s0);
          s2 = (case onPaymentCancelled cbs of
                  Some cb \<Rightarrow>
                    (case addListener (eventEmitter s1) OnPaymentCancelled cb of
                       (l, em) \<Rightarrow> s1\<lparr>eventEmitter := em, paymentCancelledListener := Some l\<rparr>)
                | None \<Rightarrow> s1);
          s3 = (case onPrintCompleted cbs of
                  Some cb \<Rightarrow>
                    (case addListener (eventEmitter s2) OnPrintCompleted cb of
                       (l, em) \<Rightarrow> s2\<lparr>eventEmitter := em, printCompletedListener := Some l\<rparr>)
                | None \<Rightarrow> s2)
      in (case onPrintError cbs of
            Some cb \<Rightarrow>
              (case addListener (eventEmitter s3) OnPrintError cb of
                 (l, em) \<Rightarrow> s3\<lparr>eventEmitter := em, printErrorListener := Some l\<rparr>)
          | None \<Rightarrow> s3))"

datatype 'cb call = AddEventListeners "'cb callbacks" | RemoveEventListeners

fun run_call :: "'cb call \<Rightarrow> 'cb service \<Rightarrow> 'cb service" where
  "run_call (AddEventListeners cbs) s = addEventListeners cbs s"
| "run_call RemoveEventListeners s = removeEventListeners s"

fun run_calls :: "'cb call list \<Rightarrow> 'cb service \<Rightarrow> 'cb service" where
  "run_calls [] s = s"
| "run_calls (c # cs) s = run_calls cs (run_call c s)"

definition active :: "'cb service \<Rightarrow> event \<Rightarrow> 'cb list" where
  \<comment> \<open>the callbacks registered for an event, in the order the emitter calls them\<close>
  "active s ev = map (\<lambda>r. snd (snd r)) (filter (\<lambda>r. fst (snd r) = ev) (registered (eventEmitter s)))"

definition callback_for :: "'cb callbacks \<Rightarrow> event \<Rightarrow> 'cb option" where
  \<comment> \<open>the callback that \<open>addEventListeners\<close> registers under an event name\<close>
  "callback_for cbs ev =
     (case ev of
        OnPaymentCompleted \<Rightarrow> onPaymentCompleted cbs
      | OnPaymentCancelled \<Rightarrow> onPaymentCancelled cbs
      | OnPrintCompleted \<Rightarrow> onPrintCompleted cbs
      | OnPrintError \<Rightarrow> onPrintError cbs)"

definition slots_cover :: "'cb service \<Rightarrow> bool" where
  \<comment> \<open>invariant: every registration of the emitter is held by one of the four slots\<close>
  "slots_cover s = (\<forall>r \<in> set (registered (eventEmitter s)).
      Some (fst r) \<in> {paymentCompletedListener s, paymentCancelledListener s,
                       printCompletedListener s, printErrorListener s})"

definition cleared :: "'cb service \<Rightarrow> 'cb service" where
  "cleared s = s\<lparr>eventEmitter := (eventEmitter s)\<lparr>registered := []\<rparr>,
     paymentCompletedListener := None, paymentCancelledListener := None,
     printCompletedListener := None, printErrorListener := None\<rparr>"

section \<open>Validation of a zero amount\<close>

text \<open>
  C3. Claimed: every non-numeric or missing input fails with the "must be a valid
  number" reason, and every number \<open>a \<le> 0\<close>, zero included, fails with "must be
  greater than zero". The first test of the function is \<open>!amount\<close>, and zero is
  falsy: at \<open>0\<close> the function returns before it reaches \<open>amount <= 0\<close>, with the
  reason "Amount must be a valid number".
\<close>

theorem validatePaymentAmount_zero:
  "validatePaymentAmount (JNumber (Fin 0))
     = \<lparr>valid = False, error = Some ''Amount must be a valid number''\<rparr>
   \<and> error (validatePaymentAmount (JNumber (Fin 0))) \<noteq> Some ''Amount must be greater than zero''"
  by (simp add: validatePaymentAmount_def)

theorem validatePaymentAmount_zero_witness:
  "\<not> valid (validatePaymentAmount (JNumber (Fin 0)))"
  using validatePaymentAmount_zero by simp

text \<open>The other inputs of the claim do get the reason it names.\<close>

lemma validatePaymentAmount_not_a_number:
  "validatePaymentAmount JUndefined = \<lparr>valid = False, error = Some ''Amount must be a valid number''\<rparr>"
  "validatePaymentAmount (JNumber NaN) = \<lparr>valid = False, error = Some ''Amount must be a valid number''\<rparr>"
  "validatePaymentAmount JNull = \<lparr>valid = False, error = Some ''Amount must be a valid number''\<rparr>"
  "validatePaymentAmount (JString str) = \<lparr>valid = False, error = Some ''Amount must be a valid number''\<rparr>"
  "validatePaymentAmount (JBoolean b) = \<lparr>valid = False, error = Some ''Amount must be a valid number''\<rparr>"
  "validatePaymentAmount JObject = \<lparr>valid = False, error = Some ''Amount must be a valid number''\<rparr>"
  by (simp_all add: validatePaymentAmount_def)

lemma validatePaymentAmount_negative:
  "q < 0 \<Longrightarrow> validatePaymentAmount (JNumber (Fin q))
     = \<lparr>valid = False, error = Some ''Amount must be greater than zero''\<rparr>"
  "validatePaymentAmount (JNumber NInf)
     = \<lparr>valid = False, error = Some ''Amount must be greater than zero''\<rparr>"
  by (simp_all add: validatePaymentAmount_def js_le_def)

section \<open>The standard receipt\<close>

lemma push_if_simps: "push_if True x = [x]" "push_if False x = []"
  by (simp_all add: push_if_def)

lemma length_push_if: "length (push_if c x) = length (filter (\<lambda>b. b) [c])"
  by (simp add: push_if_def)

lemma drop_tail_rev: "drop (length xs - n) xs = rev (take n (rev xs))"
  by (simp add: take_rev)

text \<open>
  C4, as claimed: with every optional field populated the receipt is the sequence
  of section 4.2, which ends status, two blank lines, thank-you line, reminder
  line (21 items). The code pushes one more blank line between the two closing
  lines. The merchant of the example is the one the payment screen passes.
\<close>

theorem createStandardReceipt_spec_order_counterexample:
  "createStandardReceipt (\<lambda>x d. ''5000.00'')
      \<lparr>responseCode = ''00'', responseMessage = ''Approved'', isSuccessful = True,
         transactionReference = ''TXN_1700000000000_123456'', rrn = ''000012345678'',
         amount = Fin 5000, cardType = ''VISA'', transactionType = ''Purchase'',
         cardHolderName = ''A CUSTOMER'', cardExpiry = ''12/27'',
         cardPan = ''411111******1111'', aid = ''A0000000031010'',
         dateTime = ''2023-11-14 22:13:20'', txnDate = Fin 1700000000000,
         authorizationCode = ''A1B2C3'', stan = ''000123'', authCode = ''A1B2C3'',
         transactionCurrencyType = ''NGN'', timestamp = Fin 1700000000000,
         status = Completed\<rparr>
      (Some \<lparr>name = Some ''Your Business Name'', address = Some ''123 Business Street, Lagos'',
         phone = Some ''+234 123 456 7890''\<rparr>)
   \<noteq> [(item Image)\<lparr>imageType := Some Resource, resourceName := Some ''logo''\<rparr>,
      (item Text)\<lparr>text_field := Some ''Your Business Name'', isTitle := Some True,
        displayCenter := Some True, isBold := Some True\<rparr>,
      (item Text)\<lparr>text_field := Some ''123 Business Street, Lagos'', displayCenter := Some True\<rparr>,
      (item Text)\<lparr>text_field := Some (''Tel: '' @ ''+234 123 456 7890''), displayCenter := Some True\<rparr>,
      item Separator,
      (item Text)\<lparr>text_field := Some ''PAYMENT RECEIPT'', isTitle := Some True,
        displayCenter := Some True, isBold := Some True\<rparr>,
      item Newline,
      (item Text)\<lparr>text_field := Some (''Amount: '' @ naira_sign @ ''5000.00''),
        isBold := Some True\<rparr>,
      (item Text)\<lparr>text_field := Some (''Card Type: '' @ ''VISA'')\<rparr>,
      (item Text)\<lparr>text_field := Some (''PAN: '' @ ''411111******1111'')\<rparr>,
      (item Text)\<lparr>text_field := Some (''RRN: '' @ ''000012345678'')\<rparr>,
      (item Text)\<lparr>text_field := Some (''Reference: '' @ ''TXN_1700000000000_123456'')\<rparr>,
      (item Text)\<lparr>text_field := Some (''Date: '' @ ''2023-11-14 22:13:20'')\<rparr>,
      (item Text)\<lparr>text_field := Some (''Auth Code: '' @ ''A1B2C3'')\<rparr>,
      (item Text)\<lparr>text_field := Some (''STAN: '' @ ''000123'')\<rparr>,
      item Separator,
      (item Text)\<lparr>text_field := Some ''APPROVED'',
        isTitle := Some True, displayCenter := Some True, isBold := Some True\<rparr>,
      item Newline,
      item Newline,
      (item Text)\<lparr>text_field := Some ''Thank you for your business!'',
        displayCenter := Some True\<rparr>,
      (item Text)\<lparr>text_field := Some ''Keep this receipt for your records'',
        displayCenter := Some True\<rparr>]"
  by (simp add: createStandardReceipt_def optional_chain_def push_if_simps)

text \<open>
  C4, amended: with the three merchant fields and the six optional transaction
  fields non-empty, the receipt is exactly the following 22 items: the 13 fixed
  ones (logo, separator, title, blank, amount, reference, separator, status, two
  blanks, thank-you, blank, reminder) and one per optional field, in this order.
\<close>

theorem createStandardReceipt_full:
  assumes "name mi = Some n" and "n \<noteq> []"
    and "address mi = Some a" and "a \<noteq> []"
    and "phone mi = Some p" and "p \<noteq> []"
    and "cardType t \<noteq> []" and "cardPan t \<noteq> []" and "rrn t \<noteq> []"
    and "dateTime t \<noteq> []" and "authorizationCode t \<noteq> []" and "stan t \<noteq> []"
  shows "createStandardReceipt toFixed t (Some mi) =
     [(item Image)\<lparr>imageType := Some Resource, resourceName := Some ''logo''\<rparr>,
      (item Text)\<lparr>text_field := Some n, isTitle := Some True,
        displayCenter := Some True, isBold := Some True\<rparr>,
      (item Text)\<lparr>text_field := Some a, displayCenter := Some True\<rparr>,
      (item Text)\<lparr>text_field := Some (''Tel: '' @ p), displayCenter := Some True\<rparr>,
      item Separator,
      (item Text)\<lparr>text_field := Some ''PAYMENT RECEIPT'', isTitle := Some True,
        displayCenter := Some True, isBold := Some True\<rparr>,
      item Newline,
      (item Text)\<lparr>text_field := Some (''Amount: '' @ naira_sign @ toFixed (amount t) 2),
        isBold := Some True\<rparr>,
      (item Text)\<lparr>text_field := Some (''Card Type: '' @ cardType t)\<rparr>,
      (item Text)\<lparr>text_field := Some (''PAN: '' @ cardPan t)\<rparr>,
      (item Text)\<lparr>text_field := Some (''RRN: '' @ rrn t)\<rparr>,
      (item Text)\<lparr>text_field := Some (''Reference: '' @ transactionReference t)\<rparr>,
      (item Text)\<lparr>text_field := Some (''Date: '' @ dateTime t)\<rparr>,
      (item Text)\<lparr>text_field := Some (''Auth Code: '' @ authorizationCode t)\<rparr>,
      (item Text)\<lparr>text_field := Some (''STAN: '' @ stan t)\<rparr>,
      item Separator,
      (item Text)\<lparr>text_field := Some (if isSuccessful t then ''APPROVED'' else ''DECLINED''),
        isTitle := Some True, displayCenter := Some True, isBold := Some True\<rparr>,
      item Newline,
      item Newline,
      (item Text)\<lparr>text_field := Some ''Thank you for your business!'',
        displayCenter := Some True\<rparr>,
      item Newline,
      (item Text)\<lparr>text_field := Some ''Keep this receipt for your records'',
        displayCenter := Some True\<rparr>]
   \<and> length (createStandardReceipt toFixed t (Some mi)) = 13 + 9"
  using assms by (simp add: createStandardReceipt_def optional_chain_def push_if_simps)

theorem createStandardReceipt_full_witness:
  "length (createStandardReceipt (\<lambda>x d. ''5000.00'')
      \<lparr>responseCode = ''00'', responseMessage = ''Approved'', isSuccessful = True,
         transactionReference = ''TXN_1700000000000_123456'', rrn = ''000012345678'',
         amount = Fin 5000, cardType = ''VISA'', transactionType = ''Purchase'',
         cardHolderName = ''A CUSTOMER'', cardExpiry = ''12/27'',
         cardPan = ''411111******1111'', aid = ''A0000000031010'',
         dateTime = ''2023-11-14 22:13:20'', txnDate = Fin 1700000000000,
         authorizationCode = ''A1B2C3'', stan = ''000123'', authCode = ''A1B2C3'',
         transactionCurrencyType = ''NGN'', timestamp = Fin 1700000000000,
         status = Completed\<rparr>
      (Some \<lparr>name = Some ''Your Business Name'', address = Some ''123 Business Street, Lagos'',
         phone = Some ''+234 123 456 7890''\<rparr>)) = 22"
  using createStandardReceipt_full
    [of "\<lparr>name = Some ''Your Business Name'', address = Some ''123 Business Street, Lagos'',
         phone = Some ''+234 123 456 7890''\<rparr>"
        "''Your Business Name''" "''123 Business Street, Lagos''" "''+234 123 456 7890''"
        "\<lparr>responseCode = ''00'', responseMessage = ''Approved'', isSuccessful = True,
         transactionReference = ''TXN_1700000000000_123456'', rrn = ''000012345678'',
         amount = Fin 5000, cardType = ''VISA'', transactionType = ''Purchase'',
         cardHolderName = ''A CUSTOMER'', cardExpiry = ''12/27'',
         cardPan = ''411111******1111'', aid = ''A0000000031010'',
         dateTime = ''2023-11-14 22:13:20'', txnDate = Fin 1700000000000,
         authorizationCode = ''A1B2C3'', stan = ''000123'', authCode = ''A1B2C3'',
         transactionCurrencyType = ''NGN'', timestamp = Fin 1700000000000,
         status = Completed\<rparr>"
        "\<lambda>x d. ''5000.00''"]
  by simp

text \<open>
  C5. The receipt is a value for every result and merchant (no branch of the
  source throws). Without merchant info it starts logo, separator, title: no
  merchant line is there, blank or otherwise, and amount, reference, status and
  the closing lines are. In general the length is 13 plus the number of non-empty
  optional fields, so each absent one shortens the receipt by its line.
\<close>

theorem createStandardReceipt_no_merchant:
  "createStandardReceipt toFixed t None =
     [(item Image)\<lparr>imageType := Some Resource, resourceName := Some ''logo''\<rparr>,
      item Separator,
      (item Text)\<lparr>text_field := Some ''PAYMENT RECEIPT'', isTitle := Some True,
        displayCenter := Some True, isBold := Some True\<rparr>,
      item Newline,
      (item Text)\<lparr>text_field := Some (''Amount: '' @ naira_sign @ toFixed (amount t) 2),
        isBold := Some True\<rparr>]
     @ push_if (cardType t \<noteq> [])
         ((item Text)\<lparr>text_field := Some (''Card Type: '' @ cardType t)\<rparr>)
     @ push_if (cardPan t \<noteq> []) ((item Text)\<lparr>text_field := Some (''PAN: '' @ cardPan t)\<rparr>)
     @ push_if (rrn t \<noteq> []) ((item Text)\<lparr>text_field := Some (''RRN: '' @ rrn t)\<rparr>)
     @ [(item Text)\<lparr>text_field := Some (''Reference: '' @ transactionReference t)\<rparr>]
     @ push_if (dateTime t \<noteq> []) ((item Text)\<lparr>text_field := Some (''Date: '' @ dateTime t)\<rparr>)
     @ push_if (authorizationCode t \<noteq> [])
         ((item Text)\<lparr>text_field := Some (''Auth Code: '' @ authorizationCode t)\<rparr>)
     @ push_if (stan t \<noteq> []) ((item Text)\<lparr>text_field := Some (''STAN: '' @ stan t)\<rparr>)
     @ [item Separator,
        (item Text)\<lparr>text_field := Some (if isSuccessful t then ''APPROVED'' else ''DECLINED''),
          isTitle := Some True, displayCenter := Some True, isBold := Some True\<rparr>,
        item Newline,
        item Newline,
        (item Text)\<lparr>text_field := Some ''Thank you for your business!'',
          displayCenter := Some True\<rparr>,
        item Newline,
        (item Text)\<lparr>text_field := Some ''Keep this receipt for your records'',
          displayCenter := Some True\<rparr>]
   \<and> length (createStandardReceipt toFixed t m) =
       13 + length (filter truthy_opt
                [optional_chain m name, optional_chain m address, optional_chain m phone])
          + length (filter (\<lambda>s. s \<noteq> [])
                [cardType t, cardPan t, rrn t, dateTime t, authorizationCode t, stan t])"
  by (simp add: createStandardReceipt_def optional_chain_def push_if_simps length_push_if)

text \<open>
  C6. The last seven items of every standard receipt are the separator, the
  status line and the footer; the status line is a bold, centered title whose
  text is "APPROVED" when \<open>isSuccessful\<close> holds and "DECLINED" when not.
\<close>

theorem createStandardReceipt_status_line:
  "drop (length (createStandardReceipt toFixed t m) - 7) (createStandardReceipt toFixed t m)
     = [item Separator,
        (item Text)\<lparr>text_field := Some (if isSuccessful t then ''APPROVED'' else ''DECLINED''),
          isTitle := Some True, displayCenter := Some True, isBold := Some True\<rparr>,
        item Newline,
        item Newline,
        (item Text)\<lparr>text_field := Some ''Thank you for your business!'',
          displayCenter := Some True\<rparr>,
        item Newline,
        (item Text)\<lparr>text_field := Some ''Keep this receipt for your records'',
          displayCenter := Some True\<rparr>]"
  unfolding drop_tail_rev by (simp add: createStandardReceipt_def)

section \<open>The simple receipt\<close>

text \<open>
  C8. For every result the simple receipt has exactly 7 items: title, separator,
  amount, reference, status, separator, thank-you. No item is conditional: the
  receipts of any two results agree in everything but the texts, and of the texts
  only those of the amount, reference and status lines depend on the result.
\<close>

theorem createSimpleReceipt_seven_items:
  "length (createSimpleReceipt formatCurrency t) = 7
   \<and> map type (createSimpleReceipt formatCurrency t)
       = [Text, Separator, Text, Text, Text, Separator, Text]
   \<and> map text_field (createSimpleReceipt formatCurrency t)
       = [Some ''PAYMENT RECEIPT'', None,
          Some (''Amount: '' @ formatCurrency (amount t)),
          Some (''Reference: '' @ transactionReference t),
          Some (''Status: '' @ (if isSuccessful t then ''APPROVED'' else ''DECLINED'')),
          None, Some ''Thank you!'']
   \<and> map (\<lambda>i. i\<lparr>text_field := None\<rparr>) (createSimpleReceipt formatCurrency t)
       = map (\<lambda>i. i\<lparr>text_field := None\<rparr>) (createSimpleReceipt formatCurrency' t')"
  by (simp add: createSimpleReceipt_def item_def)

section \<open>Listener registration\<close>

lemma removeEventListeners_idle:
  "removeEventListeners
     (s\<lparr>paymentCompletedListener := None, paymentCancelledListener := None,
        printCompletedListener := None, printErrorListener := None\<rparr>)
   = s\<lparr>paymentCompletedListener := None, paymentCancelledListener := None,
        printCompletedListener := None, printErrorListener := None\<rparr>"
  by (simp add: removeEventListeners_def)

lemma removeEventListeners_slots:
  "paymentCompletedListener (removeEventListeners s) = None"
  "paymentCancelledListener (removeEventListeners s) = None"
  "printCompletedListener (removeEventListeners s) = None"
  "printErrorListener (removeEventListeners s) = None"
  by (simp_all add: removeEventListeners_def Let_def split: option.splits)

lemma removeEventListeners_twice:
  "removeEventListeners (removeEventListeners s) = removeEventListeners s"
proof -
  have "removeEventListeners u = u"
    if "paymentCompletedListener u = None" "paymentCancelledListener u = None"
       "printCompletedListener u = None" "printErrorListener u = None" for u :: "'a service"
    using that by (simp add: removeEventListeners_def)
  then show ?thesis
    by (simp add: removeEventListeners_slots)
qed

lemma removeEventListeners_cleared:
  assumes cover: "slots_cover s"
  shows "removeEventListeners s = cleared s"
proof -
  obtain em a b c d m where s: "s = \<lparr>eventEmitter = em, paymentCompletedListener = a,
      paymentCancelledListener = b, printCompletedListener = c, printErrorListener = d, \<dots> = m\<rparr>"
    by (cases s) blast
  have none: "registered em = []" if "a = None" "b = None" "c = None" "d = None"
  proof (cases "registered em")
    case (Cons r rs)
    with cover that show ?thesis by (cases r) (auto simp: slots_cover_def s)
  qed simp
  show ?thesis
    using cover none
    by (cases a; cases b; cases c; cases d)
       (auto simp: s slots_cover_def removeEventListeners_def cleared_def
          remove_subscription_def filter_empty_conv)
qed

lemma active_addEventListeners:
  assumes "slots_cover s"
  shows "active (addEventListeners cbs s) ev
           = (case callback_for cbs ev of Some cb \<Rightarrow> [cb] | None \<Rightarrow> [])"
    and "slots_cover (addEventListeners cbs s)"
  unfolding addEventListeners_def removeEventListeners_cleared[OF assms]
  by (cases ev;
      simp add: cleared_def addListener_def active_def Let_def slots_cover_def callback_for_def
        split: option.splits)+

lemma slots_cover_cleared: "slots_cover (cleared s)"
  by (simp add: slots_cover_def cleared_def)

lemma active_cleared: "active (cleared s) ev = []"
  by (simp add: active_def cleared_def)

lemma slots_cover_new: "slots_cover new_service"
  by (simp add: slots_cover_def new_service_def)

lemma slots_cover_run_call: "slots_cover s \<Longrightarrow> slots_cover (run_call c s)"
  by (cases c)
     (simp_all add: active_addEventListeners(2) removeEventListeners_cleared slots_cover_cleared)

lemma slots_cover_run_calls: "slots_cover s \<Longrightarrow> slots_cover (run_calls cs s)"
  by (induction cs arbitrary: s) (simp_all add: slots_cover_run_call)

lemma active_run_call: "slots_cover s \<Longrightarrow> length (active (run_call c s) ev) \<le> 1"
  by (cases c)
     (simp_all add: active_addEventListeners(1) removeEventListeners_cleared active_cleared
        split: option.splits)

lemma active_run_calls:
  "slots_cover s \<Longrightarrow> length (active s ev) \<le> 1 \<Longrightarrow> length (active (run_calls cs s) ev) \<le> 1"
proof (induction cs arbitrary: s)
  case Nil
  then show ?case by simp
next
  case (Cons c cs)
  have "length (active (run_calls cs (run_call c s)) ev) \<le> 1"
    using Cons.prems(1) by (intro Cons.IH slots_cover_run_call active_run_call)
  then show ?case by simp
qed

text \<open>
  C7. From the constructor's state, after any sequence of \<open>addEventListeners\<close>
  and \<open>removeEventListeners\<close> calls, every event has at most one registered
  callback. A further \<open>addEventListeners\<close> leaves, for each event, exactly the
  callback it was given (none if it was given none): the earlier registrations
  are gone. \<open>removeEventListeners\<close> leaves the emitter without registrations and
  the four slots \<open>null\<close>, a second call changes nothing, and with the four slots
  already \<open>null\<close> it returns the state unchanged.
\<close>

theorem listeners_at_most_one:
  "length (active (run_calls cs new_service) ev) \<le> 1
   \<and> active (addEventListeners cbs (run_calls cs new_service)) ev
       = (case callback_for cbs ev of Some cb \<Rightarrow> [cb] | None \<Rightarrow> [])
   \<and> registered (eventEmitter (removeEventListeners (run_calls cs new_service))) = []
   \<and> paymentCompletedListener (removeEventListeners s) = None
   \<and> paymentCancelledListener (removeEventListeners s) = None
   \<and> printCompletedListener (removeEventListeners s) = None
   \<and> printErrorListener (removeEventListeners s) = None
   \<and> removeEventListeners (removeEventListeners s) = removeEventListeners s
   \<and> removeEventListeners
        (s\<lparr>paymentCompletedListener := None, paymentCancelledListener := None,
           printCompletedListener := None, printErrorListener := None\<rparr>)
       = s\<lparr>paymentCompletedListener := None, paymentCancelledListener := None,
           printCompletedListener := None, printErrorListener := None\<rparr>"
proof -
  have cover: "slots_cover (run_calls cs (new_service :: 'a service))"
    by (rule slots_cover_run_calls) (rule slots_cover_new)
  have "length (active (new_service :: 'a service) ev) \<le> 1"
    by (simp add: active_def new_service_def)
  then have one: "length (active (run_calls cs (new_service :: 'a service)) ev) \<le> 1"
    by (rule active_run_calls [OF slots_cover_new])
  have empty: "registered (eventEmitter (removeEventListeners (run_calls cs (new_service :: 'a service)))) = []"
    by (simp add: removeEventListeners_cleared [OF cover] cleared_def)
  show ?thesis
    using one empty active_addEventListeners(1) [OF cover]
    by (simp add: removeEventListeners_slots removeEventListeners_twice removeEventListeners_idle)
qed

section \<open>Properties of the rounding\<close>

text \<open>
  The rounding is analysed once: \<open>ilog2\<close> does find the binade of a positive
  rational, a number in the normal range rounds to a 53-bit significand times a
  power of two with an error of at most half a unit in the last place, the
  rounding is odd, and from \<open>2^1024\<close> on it overflows.
\<close>

lemma rhe_upper: "of_int (round_half_even x) \<le> x + 1 / 2"
  unfolding round_half_even_def Let_def by (auto; linarith)

lemma rhe_lower: "x - 1 / 2 \<le> of_int (round_half_even x)"
  unfolding round_half_even_def Let_def by (auto; linarith)

lemma rhe_of_int [simp]: "round_half_even (of_int n) = n"
  unfolding round_half_even_def Let_def by simp

lemma rhe_le_int: "x \<le> of_int n \<Longrightarrow> round_half_even x \<le> n"
  unfolding round_half_even_def Let_def
  by (auto simp: floor_le_iff le_floor_iff; linarith)

lemma rhe_ge_int: "of_int n \<le> x \<Longrightarrow> n \<le> round_half_even x"
  unfolding round_half_even_def Let_def
  by (auto simp: le_floor_iff; linarith)

lemma bitlen_powi_bounds:
  assumes "0 < a"
  shows "(2::rat) powi (bitlen a - 1) \<le> of_int a" and "of_int a < (2::rat) powi (bitlen a)"
proof -
  from assms have pos: "1 \<le> bitlen a"
    using bitlen_eq_zero_iff [of a] bitlen_nonneg [of a] by linarith
  from bitlen_bounds [OF assms]
  have lo: "2 ^ nat (bitlen a - 1) \<le> a" and hi: "a < 2 ^ nat (bitlen a)" by blast+
  have "(2::rat) powi (bitlen a - 1) = of_int (2 ^ nat (bitlen a - 1))"
    using pos by (simp add: power_int_def)
  also have "\<dots> \<le> of_int a" using lo by (simp only: of_int_le_iff)
  finally show "(2::rat) powi (bitlen a - 1) \<le> of_int a" .
  have "(of_int a :: rat) < of_int (2 ^ nat (bitlen a))" using hi by (simp only: of_int_less_iff)
  also have "\<dots> = 2 powi (bitlen a)" using pos by (simp add: power_int_def)
  finally show "of_int a < (2::rat) powi (bitlen a)" .
qed

lemma ilog2_bounds:
  assumes "0 < q"
  shows "2 powi (ilog2 q) \<le> q" and "q < 2 powi (ilog2 q + 1)"
proof -
  obtain a b where ab: "quotient_of q = (a, b)" by (cases "quotient_of q")
  then have b: "0 < b" and q: "q = of_int a / of_int b"
    using quotient_of_denom_pos quotient_of_div by blast+
  with assms have a: "0 < a" 
    by (simp add: zero_less_divide_iff)
  define d where "d = bitlen a - bitlen b"
  note la = bitlen_powi_bounds [OF a] and lb = bitlen_powi_bounds [OF b]
  have bpos: "(0::rat) < of_int b" using b by simp
  have "of_int a * (2::rat) powi (bitlen b - 1) < 2 powi (bitlen a) * of_int b"
    using la(2) lb(1) a b by (intro mult_less_le_imp_less) simp_all
  then have "q < 2 powi (bitlen a) / 2 powi (bitlen b - 1)"
    using bpos by (simp add: q field_simps)
  also have "\<dots> = 2 powi (d + 1)"
    by (simp add: d_def power_int_diff [symmetric] algebra_simps)
  finally have up: "q < 2 powi (d + 1)" .
  have "(2::rat) powi (bitlen a - 1) * of_int b \<le> of_int a * 2 powi (bitlen b)"
    using la(1) lb(2) a b by (intro mult_mono) simp_all
  then have "2 powi (bitlen a - 1) / 2 powi (bitlen b) \<le> q"
    using bpos by (simp add: q field_simps)
  moreover have "(2::rat) powi (bitlen a - 1) / 2 powi (bitlen b) = 2 powi (d - 1)"
    by (simp add: d_def power_int_diff [symmetric] algebra_simps)
  ultimately have lo: "2 powi (d - 1) \<le> q" by simp
  have il: "ilog2 q = (if 2 powi d \<le> q then d else d - 1)"
    by (simp add: ilog2_def ab d_def Let_def)
  show "2 powi (ilog2 q) \<le> q" using lo by (simp add: il)
  show "q < 2 powi (ilog2 q + 1)" using up by (auto simp add: il)
qed

lemma pow2_less_iff [simp]: "(2::rat) powi m < 2 powi n \<longleftrightarrow> m < n"
proof
  assume "(2::rat) powi m < 2 powi n"
  show "m < n"
  proof (rule ccontr)
    assume "\<not> m < n"
    then have "(2::rat) powi n \<le> 2 powi m" by (intro power_int_increasing) simp_all
    with \<open>(2::rat) powi m < 2 powi n\<close> show False by simp
  qed
qed (simp add: power_int_strict_increasing)

lemma pow2_le_iff [simp]: "(2::rat) powi m \<le> 2 powi n \<longleftrightarrow> m \<le> n"
  using pow2_less_iff [of n m] by (simp only: not_less [symmetric])

lemma pow2_add: "(2::rat) powi (m + n) = 2 powi m * 2 powi n"
  by (simp add: power_int_add)

lemma ilog2_unique:
  assumes "2 powi e \<le> q" and "q < 2 powi (e + 1)"
  shows "ilog2 q = e"
proof -
  have q: "0 < q" using assms(1) by (rule less_le_trans [rotated]) simp
  note b = ilog2_bounds [OF q]
  have "(2::rat) powi e < 2 powi (ilog2 q + 1)" using assms(1) b(2) by (rule le_less_trans)
  then have "e < ilog2 q + 1" by simp 
  moreover have "(2::rat) powi (ilog2 q) < 2 powi (e + 1)" using b(1) assms(2) by (rule le_less_trans)
  then have "ilog2 q < e + 1" by simp
  ultimately show ?thesis by simp
qed

lemma round64_normal:
  assumes lo: "2 powi e \<le> q" and hi: "q < 2 powi (e + 1)"
    and e: "- 1022 \<le> e" "e \<le> 1022"
  defines "v \<equiv> of_int (round_half_even (q / 2 powi (e - 52))) * 2 powi (e - 52)"
  shows "round64 q = Fin v"
    and "2 powi e \<le> v" and "v \<le> 2 powi (e + 1)"
    and "\<bar>v - q\<bar> \<le> 2 powi (e - 53)"
proof -
  have q: "0 < q" using lo by (rule less_le_trans [rotated]) simp
  define x where "x = q / 2 powi (e - 52)"
  define m where "m = round_half_even x"
  have v: "v = of_int m * 2 powi (e - 52)" by (simp add: v_def m_def x_def)
  have qx: "q = x * 2 powi (e - 52)" by (simp add: x_def)
  have s: "(2::rat) powi e = 2 powi 52 * 2 powi (e - 52)"
    "(2::rat) powi (e + 1) = 2 powi 53 * 2 powi (e - 52)"
    by (subst pow2_add [symmetric], rule arg_cong [where f = "power_int 2"], simp)+
  have "of_int (2 ^ 52) \<le> x" using lo unfolding s qx by simp
  then have m_lo: "2 ^ 52 \<le> m" unfolding m_def by (rule rhe_ge_int)
  have "x \<le> of_int (2 ^ 53)" using hi unfolding s qx by simp
  then have m_hi: "m \<le> 2 ^ 53" unfolding m_def by (rule rhe_le_int)
  from m_lo have "(of_int (2 ^ 52) :: rat) \<le> of_int m" by (simp only: of_int_le_iff)
  then show v_lo: "2 powi e \<le> v" unfolding s v by simp
  from m_hi have "(of_int m :: rat) \<le> of_int (2 ^ 53)" by (simp only: of_int_le_iff)
  then show v_hi: "v \<le> 2 powi (e + 1)" unfolding s v by simp
  have "(2::rat) powi (e + 1) < 2 powi 1024" using e by (simp only: pow2_less_iff)
  with v_hi have not_inf: "\<not> 2 powi 1024 \<le> v" by simp
  have "0 < v" using v_lo by (rule less_le_trans [rotated]) simp
  moreover have "- ((2::rat) powi 1024) < 0" by simp
  ultimately have not_ninf: "\<not> v \<le> - (2 powi 1024)" by linarith
  have il: "ilog2 \<bar>q\<bar> = e" using q lo hi by (simp add: ilog2_unique)
  have "max e (- 1022) = e" using e by simp
  then show "round64 q = Fin v"
    using q not_inf not_ninf unfolding round64_def il Let_def
    by (simp add: v_def)
  have "\<bar>of_int m - x\<bar> \<le> 1 / 2"
    using rhe_upper [of x] rhe_lower [of x] unfolding m_def by linarith
  moreover have "v - q = (of_int m - x) * 2 powi (e - 52)"
    unfolding v qx by (simp add: algebra_simps)
  ultimately have "\<bar>v - q\<bar> \<le> 1 / 2 * 2 powi (e - 52)"
    by (simp add: abs_mult)
  also have "\<dots> = 2 powi (e - 53)"
    using pow2_add [of 1 "e - 53"] by simp
  finally show "\<bar>v - q\<bar> \<le> 2 powi (e - 53)" .
qed

lemma rhe_unique:
  assumes "of_int n - 1 / 2 < x" and "x < of_int n + 1 / 2"
  shows "round_half_even x = n"
proof -
  have "(of_int (round_half_even x) :: rat) < of_int (n + 1)"
    using rhe_upper [of x] assms(2) by simp
  then have "round_half_even x < n + 1" by (simp only: of_int_less_iff)
  moreover have "(of_int (n - 1) :: rat) < of_int (round_half_even x)"
    using rhe_lower [of x] assms(1) by simp
  then have "n - 1 < round_half_even x" by (simp only: of_int_less_iff)
  ultimately show ?thesis by simp
qed

lemma round64_eval:
  assumes "2 powi e \<le> q" and "q < 2 powi (e + 1)" and "- 1022 \<le> e" and "e \<le> 1022"
    and "of_int n - 1 / 2 < q / 2 powi (e - 52)" and "q / 2 powi (e - 52) < of_int n + 1 / 2"
  shows "round64 q = Fin (of_int n * 2 powi (e - 52))"
  using round64_normal(1) [OF assms(1-4)] rhe_unique [OF assms(5,6)] by simp

lemma Math_round_eval:
  "of_int n - 1 / 2 \<le> q \<Longrightarrow> q < of_int n + 1 / 2 \<Longrightarrow> Math_round (Fin q) = Fin (of_int n)"
  by (simp add: floor_unique)

lemma rhe_minus: "round_half_even (- x) = - round_half_even x"
proof (cases "x = of_int \<lfloor>x\<rfloor>")
  case True
  then obtain n where "x = of_int n" ..
  then have "- x = of_int (- n)" by simp
  then show ?thesis using \<open>x = of_int n\<close> by (simp only: rhe_of_int)
next
  case False
  define f where "f = \<lfloor>x\<rfloor>"
  define r where "r = x - of_int f"
  have "of_int f \<le> x" "x < of_int f + 1" unfolding f_def by linarith+
  moreover have "x \<noteq> of_int f" using False unfolding f_def .
  ultimately have r: "0 < r" "r < 1" unfolding r_def by linarith+
  have x: "x = of_int f + r" by (simp add: r_def)
  have "\<lfloor>- x\<rfloor> = - f - 1"
    using r by (intro floor_unique) (simp_all add: x)
  then have fl: "\<lfloor>- x\<rfloor> = - f - 1" "- x - of_int (- f - 1) = 1 - r"
    by (simp_all add: x)
  have rhe: "round_half_even x = (if r < 1 / 2 then f else if 1 / 2 < r then f + 1 else if even f then f else f + 1)"
    unfolding round_half_even_def Let_def f_def [symmetric] r_def [symmetric] ..
  have rhe': "round_half_even (- x) = (if 1 - r < 1 / 2 then - f - 1 else if 1 / 2 < 1 - r then - f - 1 + 1
       else if even (- f - 1) then - f - 1 else - f - 1 + 1)"
    unfolding round_half_even_def Let_def fl ..
  consider "r < 1 / 2" | "1 / 2 < r" | "r = 1 / 2" by linarith
  then show ?thesis
  proof cases
    case 1
    then show ?thesis unfolding rhe rhe' by simp
  next
    case 2
    then show ?thesis unfolding rhe rhe' by simp
  next
    case 3
    then show ?thesis unfolding rhe rhe' by simp
  qed
qed

lemma round64_minus: "round64 (- q) = js_neg (round64 q)"
proof (cases "q = 0")
  case True
  then show ?thesis by (simp add: round64_def)
next
  case False
  define E where "E = max (ilog2 \<bar>q\<bar>) (- 1022) - 52"
  define v :: rat where "v = of_int (round_half_even (q / 2 powi E)) * 2 powi E"
  have lt: "- ((2::rat) powi 1024) < 2 powi 1024"
    by (rule less_trans [of _ 0]) simp_all
  have r: "round64 q = (if 2 powi 1024 \<le> v then PInf else if v \<le> - (2 powi 1024) then NInf else Fin v)"
    using False unfolding round64_def Let_def E_def v_def by simp
  have "of_int (round_half_even (- q / 2 powi E)) * 2 powi E = - v"
    unfolding v_def by (simp add: rhe_minus)
  then have r': "round64 (- q) = (if 2 powi 1024 \<le> - v then PInf else if - v \<le> - (2 powi 1024) then NInf else Fin (- v))"
    using False unfolding round64_def Let_def E_def by simp
  show ?thesis
    unfolding r r' using lt by (simp add: le_minus_iff)
qed

lemma round64_overflow:
  assumes "2 powi 1024 \<le> q"
  shows "round64 q = PInf"
proof -
  have q: "0 < q" using assms by (rule less_le_trans [rotated]) simp
  define e where "e = ilog2 q"
  note b = ilog2_bounds [OF q, folded e_def]
  have "(2::rat) powi 1024 < 2 powi (e + 1)" using assms b(2) by (rule le_less_trans)
  then have e: "1024 \<le> e" unfolding pow2_less_iff by linarith
  define x where "x = q / 2 powi (e - 52)"
  have s: "(2::rat) powi e = 2 powi 52 * 2 powi (e - 52)"
    by (subst pow2_add [symmetric], rule arg_cong [where f = "power_int 2"], simp)
  have qx: "q = x * 2 powi (e - 52)" by (simp add: x_def)
  have "of_int (2 ^ 52) \<le> x" using b(1) unfolding s qx by simp
  then have "2 ^ 52 \<le> round_half_even x" by (rule rhe_ge_int)
  then have "(of_int (2 ^ 52) :: rat) \<le> of_int (round_half_even x)" by (simp only: of_int_le_iff)
  define v :: rat where "v = of_int (round_half_even x) * 2 powi (e - 52)"
  have "(2::rat) powi e \<le> v"
    using \<open>(of_int (2 ^ 52) :: rat) \<le> of_int (round_half_even x)\<close> unfolding s v_def by simp
  moreover have "(2::rat) powi 1024 \<le> 2 powi e" using e by (simp only: pow2_le_iff)
  ultimately have big: "(2::rat) powi 1024 \<le> v"
    by (rule order_trans [rotated])
  have m: "max (ilog2 \<bar>q\<bar>) (- 1022) = e" using e q by (simp add: e_def)
  have q0: "(q = 0) = False" using q by simp
  have "round64 q = (if (2::rat) powi 1024 \<le> v then PInf
      else if v \<le> - (2 powi 1024) then NInf else Fin v)"
    unfolding round64_def Let_def m v_def x_def q0 by (simp only: if_False)
  then show ?thesis using big by (simp only: if_True)
qed

lemma round64_rel_error:
  assumes "2 powi (- 1022) \<le> \<bar>q\<bar>" and "\<bar>q\<bar> < 2 powi 1023"
  obtains v where "round64 q = Fin v" and "\<bar>v - q\<bar> \<le> \<bar>q\<bar> * 2 powi (- 53)"
proof -
  have pos: "\<exists>v. round64 p = Fin v \<and> \<bar>v - p\<bar> \<le> p * 2 powi (- 53)"
    if lo: "2 powi (- 1022) \<le> p" and hi: "p < 2 powi 1023" for p
  proof -
    have p: "0 < p" using lo by (rule less_le_trans [rotated]) simp
    define e where "e = ilog2 p"
    note b = ilog2_bounds [OF p, folded e_def]
    have "(2::rat) powi (- 1022) < 2 powi (e + 1)" using lo b(2) by (rule le_less_trans)
    then have e1: "- 1022 \<le> e" unfolding pow2_less_iff by linarith
    have "(2::rat) powi e < 2 powi 1023" using b(1) hi by (rule le_less_trans)
    then have e2: "e \<le> 1022" unfolding pow2_less_iff by linarith
    note n = round64_normal [OF b e1 e2]
    have "(2::rat) powi (e - 53) = 2 powi e * 2 powi (- 53)"
      by (subst pow2_add [symmetric]) simp
    also have "\<dots> \<le> p * 2 powi (- 53)" using b(1) by simp
    finally show ?thesis using n(1,4) by auto
  qed
  show thesis
  proof (cases "0 \<le> q")
    case True
    with assms pos [of q] that show thesis by auto
  next
    case False
    with assms pos [of "- q"] obtain v where v: "round64 (- q) = Fin v" "\<bar>v + q\<bar> \<le> - q * 2 powi (- 53)"
      by auto
    from v(1) have "round64 q = Fin (- v)"
      using round64_minus [of "- q"] by simp
    moreover have "\<bar>- v - q\<bar> \<le> \<bar>q\<bar> * 2 powi (- 53)"
      using v(2) False by (simp add: abs_minus_commute [of "- v" q] del: power_int_numeral_neg_numeral) 
    ultimately show thesis by (rule that)
  qed
qed

lemma rhe_le_half: "x < of_int n + 1 / 2 \<Longrightarrow> round_half_even x \<le> n"
proof -
  assume "x < of_int n + 1 / 2"
  then have "(of_int (round_half_even x) :: rat) < of_int (n + 1)"
    using rhe_upper [of x] by simp
  then have "round_half_even x < n + 1" by (simp only: of_int_less_iff)
  then show ?thesis by simp
qed

lemma round64_upper_pow2:
  assumes q: "0 < q" and le: "q \<le> 2 powi t" and t: "- 1022 \<le> t" "t \<le> 1023"
  obtains v where "round64 q = Fin v" and "0 \<le> v" and "v \<le> 2 powi t"
    and "\<bar>v - q\<bar> \<le> 2 powi (t - 53)"
proof -
  define e where "e = ilog2 q"
  note b = ilog2_bounds [OF q, folded e_def]
  have "(2::rat) powi e \<le> 2 powi t" using b(1) le by (rule order_trans)
  then have et: "e \<le> t" by (simp only: pow2_le_iff)
  define E where "E = max e (- 1022) - 52"
  have E: "0 \<le> t - E" using et t by (simp add: E_def)
  define x where "x = q / 2 powi E"
  define v :: rat where "v = of_int (round_half_even x) * 2 powi E"
  have qx: "q = x * 2 powi E" by (simp add: x_def)
  have s: "(2::rat) powi t = of_int (2 ^ nat (t - E)) * 2 powi E"
  proof -
    have "(2::rat) powi t = 2 powi (t - E) * 2 powi E"
      by (subst pow2_add [symmetric]) simp
    also have "(2::rat) powi (t - E) = of_int (2 ^ nat (t - E))"
      using E by (simp add: power_int_def)
    finally show ?thesis .
  qed
  have "x \<le> of_int (2 ^ nat (t - E))" using le unfolding s qx by simp
  then have "round_half_even x \<le> 2 ^ nat (t - E)" by (rule rhe_le_int)
  then have "(of_int (round_half_even x) :: rat) \<le> of_int (2 ^ nat (t - E))"
    by (simp only: of_int_le_iff)
  then have v_hi: "v \<le> 2 powi t" unfolding s v_def by simp
  have "of_int 0 \<le> x" using q by (simp add: x_def)
  then have "0 \<le> round_half_even x" by (rule rhe_ge_int)
  then have v_lo: "0 \<le> v" by (simp add: v_def)
  have "(2::rat) powi t < 2 powi 1024" using t by (simp only: pow2_less_iff)
  with v_hi have c1: "(2 powi 1024 \<le> v) = False" by simp
  have "- ((2::rat) powi 1024) < 0" by simp
  with v_lo have "\<not> v \<le> - (2 powi 1024)" by linarith
  then have c2: "(v \<le> - (2 powi 1024)) = False" by simp
  have q0: "(q = 0) = False" "\<bar>q\<bar> = q" using q by simp_all
  have "round64 q = Fin v"
    unfolding round64_def Let_def q0 e_def [symmetric] E_def [symmetric] x_def [symmetric]
      v_def [symmetric] c1 c2
    by (simp only: if_False)
  moreover have "\<bar>v - q\<bar> \<le> 2 powi (t - 53)"
  proof -
    have "\<bar>of_int (round_half_even x) - x\<bar> \<le> 1 / 2"
      using rhe_upper [of x] rhe_lower [of x] by linarith
    moreover have "v - q = (of_int (round_half_even x) - x) * 2 powi E"
      unfolding v_def qx by (simp add: algebra_simps)
    ultimately have "\<bar>v - q\<bar> \<le> 1 / 2 * 2 powi E"
      by (simp add: abs_mult)
    also have "\<dots> = 2 powi (E - 1)"
      using pow2_add [of 1 "E - 1"] by simp
    also have "\<dots> \<le> 2 powi (t - 53)"
      using et t by (simp only: pow2_le_iff E_def)
    finally show ?thesis .
  qed
  ultimately show thesis using v_lo v_hi by (intro that)
qed

lemma double_below_one:
  assumes d: "is_double r" and lo: "1 / 2 \<le> r" and hi: "r < 1"
  shows "r \<le> 1 - 1 / 2 ^ 53"
proof -
  define m where "m = round_half_even (r / 2 powi (- 1 - 52))"
  have "round64 r = Fin (of_int m * 2 powi (- 1 - 52))"
    unfolding m_def using lo hi by (intro round64_normal(1)) simp_all
  with d have r: "r = of_int m / 2 ^ 53" by (simp add: is_double_def)
  with hi have "(of_int m :: rat) < of_int (2 ^ 53)" by simp
  then have "m < 2 ^ 53" by (simp only: of_int_less_iff)
  then have "m \<le> 2 ^ 53 - 1" by simp
  then have "(of_int m :: rat) \<le> of_int (2 ^ 53 - 1)" by (simp only: of_int_le_iff)
  then show ?thesis unfolding r by (simp add: field_simps)
qed

lemma randomNum_range:
  assumes d: "is_double r" and lo: "0 \<le> r" and hi: "r < 1"
  obtains v where "round64 (r * 1000000) = Fin v"
    and "\<bar>v - r * 1000000\<bar> \<le> 1 / 2 ^ 34"
    and "0 \<le> \<lfloor>v\<rfloor>" and "\<lfloor>v\<rfloor> \<le> 999999"
    and "randomNum r = Fin (of_int \<lfloor>v\<rfloor>)"
proof -
  note conclude = that
  define q where "q = r * 1000000"
  have rn: "randomNum r = Math_floor (round64 q)" by (simp add: randomNum_def q_def)
  have small: thesis
    if v: "round64 q = Fin v" "0 \<le> v" "v < 1000000" "\<bar>v - q\<bar> \<le> 2 powi (19 - 53)" for v
  proof -
    have "round64 (r * 1000000) = Fin v" using v(1) by (simp only: q_def)
    moreover have "\<bar>v - r * 1000000\<bar> \<le> 1 / 2 ^ 34" using v(4) by (simp add: q_def)
    moreover have "0 \<le> \<lfloor>v\<rfloor>" using v(2) by simp
    moreover have "\<lfloor>v\<rfloor> < 1000000" using v(3) by (simp add: floor_less_iff)
    then have "\<lfloor>v\<rfloor> \<le> 999999" by simp
    moreover have "randomNum r = Fin (of_int \<lfloor>v\<rfloor>)" by (simp add: rn v(1))
    ultimately show thesis by (rule conclude)
  qed
  have below: thesis if "0 < q" "q \<le> 2 powi 19"
  proof -
    from round64_upper_pow2 [OF that] obtain v
      where v: "round64 q = Fin v" "0 \<le> v" "v \<le> 2 powi 19" "\<bar>v - q\<bar> \<le> 2 powi (19 - 53)"
      by auto
    from v(3) have "v < 1000000" by simp
    with v(1,2) show thesis using v(4) by (rule small)
  qed
  consider "r = 0" | "0 < r" "r < 1 / 2" | "1 / 2 \<le> r" using lo by linarith
  then show thesis
  proof cases
    case 1
    then have "round64 q = Fin 0" "(0::rat) \<le> 0" "(0::rat) < 1000000"
      "\<bar>0 - q\<bar> \<le> 2 powi (19 - 53)"
      by (simp_all add: q_def round64_def)
    then show thesis by (rule small)
  next
    case 2
    then have "0 < q" "q \<le> 2 powi 19" by (simp_all add: q_def)
    then show thesis by (rule below)
  next
    case 3
    from double_below_one [OF d 3 hi] have r: "r \<le> 1 - 1 / 2 ^ 53" .
    have qpos: "0 < q" using 3 by (simp add: q_def)
    show thesis
    proof (cases "q \<le> 2 powi 19")
      case True
      with qpos show thesis by (rule below)
    next
      case False
      then have q_lo: "2 powi 19 \<le> q" by simp
      have q_hi: "q < 2 powi (19 + 1)" using hi by (simp add: q_def)
      define m where "m = round_half_even (q / 2 powi (19 - 52))"
      define v :: rat where "v = of_int m * 2 powi (19 - 52)"
      note n = round64_normal [OF q_lo q_hi, folded m_def, folded v_def]
      have "q / 2 powi (19 - 52) = r * 8589934592000000" by (simp add: q_def)
      also have "\<dots> \<le> 8589934592000000 - 8589934592000000 / 2 ^ 53"
        using r by simp
      also have "\<dots> < of_int 8589934591999999 + 1 / 2" by simp
      finally have "m \<le> 8589934591999999" unfolding m_def by (rule rhe_le_half)
      then have "(of_int m :: rat) \<le> of_int 8589934591999999" by (simp only: of_int_le_iff)
      then have "v < 1000000" by (simp add: v_def)
      moreover have "0 \<le> v" using n(2) by simp
      moreover have "round64 q = Fin v" using n(1) by simp
      moreover have "\<bar>v - q\<bar> \<le> 2 powi (19 - 53)" using n(4) by simp
      ultimately show thesis by (intro small)
    qed
  qed
qed

section \<open>The precision check of the validator\<close>

lemma fl_max: "js_lit (99999999 / 100) = Fin (4294967253050327 / 4294967296)"
  unfolding js_lit_def
  using round64_eval [of 19 "99999999 / 100" 8589934506100654] by simp

lemma round_19_99_times_100:
  "Math_round (Fin (8791694975696895 / 4398046511104)) = Fin 1999"
  using Math_round_eval [of 1999 "8791694975696895 / 4398046511104"] by simp

lemma fl_19_99: "js_lit (1999 / 100) = Fin (5626684784446013 / 281474976710656)"
  unfolding js_lit_def
  using round64_eval [of 4 "1999 / 100" 5626684784446013] by simp

lemma fl_19_99_times_100:
  "js_mul (Fin (5626684784446013 / 281474976710656)) (Fin 100)
     = Fin (8791694975696895 / 4398046511104)"
  using round64_eval [of 10 "5626684784446013 / 281474976710656 * 100" 8791694975696895]
  by simp

text \<open>
  C1. Claimed: every amount with at most two decimal digits between 10 and
  999,999.99 is accepted. The amount 19.99 is such an amount; as a binary64
  number it is slightly below 19.99, its product with 100 rounds to
  1998.9999999999998 and \<open>Math.round\<close> of that is 1999, so the function rejects
  it as having more than 2 decimal places.
\<close>

theorem validatePaymentAmount_rejects_19_99:
  "validatePaymentAmount (JNumber (js_lit (1999 / 100)))
     = \<lparr>valid = False, error = Some ''Amount cannot have more than 2 decimal places''\<rparr>"
  unfolding validatePaymentAmount_def fl_19_99 fl_max
  by (simp add: fl_19_99_times_100 round_19_99_times_100 js_le_def js_gt_def js_strict_neq_def
        del: js_mul.simps Math_round.simps)

theorem validatePaymentAmount_rejects_19_99_witness:
  "\<not> valid (validatePaymentAmount (JNumber (js_lit (1999 / 100))))"
  using validatePaymentAmount_rejects_19_99 by simp

text \<open>
  The two bounds of the claim are as it says: 9.99 is below the minimum,
  1,000,000 above the maximum, and 999,999.99 itself is accepted.
\<close>

lemma fl_9_99: "js_lit (999 / 100) = Fin (5623870034678907 / 562949953421312)"
  unfolding js_lit_def
  using round64_eval [of 3 "999 / 100" 5623870034678907] by simp

lemma validatePaymentAmount_below_minimum:
  "validatePaymentAmount (JNumber (js_lit (999 / 100)))
     = \<lparr>valid = False, error = Some (''Minimum amount is '' @ naira_sign @ ''10'')\<rparr>"
  unfolding validatePaymentAmount_def fl_9_99
  by (simp add: js_le_def)

lemma validatePaymentAmount_above_maximum:
  "validatePaymentAmount (JNumber (Fin 1000000))
     = \<lparr>valid = False,
        error = Some (''Amount exceeds maximum limit ('' @ naira_sign @ ''999,999.99)'')\<rparr>"
  unfolding validatePaymentAmount_def fl_max
  by (simp add: js_le_def js_gt_def)

lemma mul_max_100:
  "js_mul (Fin (4294967253050327 / 4294967296)) (Fin 100) = Fin 99999999"
  using round64_eval [of 26 "4294967253050327 / 4294967296 * 100" 6710886332891136]
  by simp

lemma round_max: "Math_round (Fin 99999999) = Fin 99999999"
  using Math_round_eval [of 99999999 99999999] by simp

lemma validatePaymentAmount_accepts_maximum:
  "validatePaymentAmount (JNumber (js_lit (99999999 / 100))) = \<lparr>valid = True, error = None\<rparr>"
  unfolding validatePaymentAmount_def fl_max
  by (simp add: mul_max_100 round_max js_le_def js_gt_def js_strict_neq_def
        del: js_mul.simps Math_round.simps)

lemma fl_10_03: "js_lit (1003 / 100) = Fin (5646388032815759 / 562949953421312)"
  unfolding js_lit_def
  using round64_eval [of 3 "1003 / 100" 5646388032815759] by simp

lemma fl_10_03_times_100:
  "js_mul (Fin (5646388032815759 / 562949953421312)) (Fin 100)
     = Fin (8822481301274623 / 8796093022208)"
  using round64_eval [of 9 "5646388032815759 / 562949953421312 * 100" 8822481301274623]
  by simp

lemma round_10_03_times_100:
  "Math_round (Fin (8822481301274623 / 8796093022208)) = Fin 1003"
  using Math_round_eval [of 1003 "8822481301274623 / 8796093022208"] by simp

text \<open>
  C2. Claimed: the precision check is a tolerance-free integer comparison, not a
  floating-point equality, so that no amount with two decimal digits is rejected.
  The check compares the binary64 product \<open>amount * 100\<close> with its rounding to
  an integer: at 10.03 the product is 1002.9999999999999, which differs from
  1003, and the amount is rejected for its decimal places.
\<close>

theorem precision_check_float_equality:
  "js_mul (js_lit (1003 / 100)) (Fin 100) = Fin (8822481301274623 / 8796093022208)
   \<and> Math_round (js_mul (js_lit (1003 / 100)) (Fin 100)) = Fin 1003
   \<and> validatePaymentAmount (JNumber (js_lit (1003 / 100)))
       = \<lparr>valid = False, error = Some ''Amount cannot have more than 2 decimal places''\<rparr>"
  unfolding validatePaymentAmount_def fl_10_03 fl_max
  by (simp add: fl_10_03_times_100 round_10_03_times_100 js_le_def js_gt_def js_strict_neq_def
        del: js_mul.simps Math_round.simps)

theorem precision_check_float_equality_witness:
  "\<not> valid (validatePaymentAmount (JNumber (js_lit (1003 / 100))))"
  using precision_check_float_equality by simp

text \<open>An amount with three decimal digits, 10.005, is rejected as the claim says.\<close>

lemma fl_10_005: "js_lit (10005 / 1000) = Fin (5632314283980227 / 562949953421312)"
  unfolding js_lit_def
  using round64_eval [of 3 "10005 / 1000" 5632314283980227] by simp

lemma fl_10_005_times_100:
  "js_mul (Fin (5632314283980227 / 562949953421312)) (Fin 100)
     = Fin (8800491068719105 / 8796093022208)"
  using round64_eval [of 9 "5632314283980227 / 562949953421312 * 100" 8800491068719105]
  by simp

lemma round_10_005_times_100:
  "Math_round (Fin (8800491068719105 / 8796093022208)) = Fin 1001"
  using Math_round_eval [of 1001 "8800491068719105 / 8796093022208"] by simp

lemma validatePaymentAmount_10_005:
  "validatePaymentAmount (JNumber (js_lit (10005 / 1000)))
       = \<lparr>valid = False, error = Some ''Amount cannot have more than 2 decimal places''\<rparr>"
  unfolding validatePaymentAmount_def fl_10_005 fl_max
  by (simp add: fl_10_005_times_100 round_10_005_times_100 js_le_def js_gt_def js_strict_neq_def
        del: js_mul.simps Math_round.simps)

section \<open>Naira and kobo\<close>

lemma pow2_m1022_le: "(2::rat) powi (- 1022) \<le> 1 / 2"
proof -
  have "(2::rat) powi (- 1022) \<le> 2 powi (- 1)" by (simp only: pow2_le_iff)
  then show ?thesis by simp
qed

lemma pow2_1023_gt: "2 ^ 51 < (2::rat) powi 1023"
proof -
  have "(2::rat) powi 51 < 2 powi 1023" by (simp only: pow2_less_iff)
  then show ?thesis by (simp only: power_int_numeral)
qed

lemma kobo_round_trip_core:
  assumes k: "\<bar>k\<bar> \<le> 2 ^ 50"
  obtains v where "round64 (of_int k / 100) = Fin v"
    and "Math_round (round64 (v * 100)) = Fin (of_int k)"
proof (cases "k = 0")
  case True
  have "round64 (of_int k / 100) = Fin 0" "Math_round (round64 (0 * 100)) = Fin (of_int k)"
    using True Math_round_eval [of 0 0] by (simp_all add: round64_def del: Math_round.simps)
  then show thesis by (rule that)
next
  case False
  define K :: rat where "K = of_int k"
  have "1 \<le> \<bar>k\<bar>" using False by simp
  then have "(of_int 1 :: rat) \<le> of_int \<bar>k\<bar>" by (simp only: of_int_le_iff)
  then have K1: "1 \<le> \<bar>K\<bar>" by (simp add: K_def)
  have "(of_int \<bar>k\<bar> :: rat) \<le> of_int (2 ^ 50)" using k by (simp only: of_int_le_iff)
  then have K2: "\<bar>K\<bar> \<le> 2 ^ 50" by (simp add: K_def)
  define q0 where "q0 = K / 100"
  have a0: "\<bar>q0\<bar> = \<bar>K\<bar> / 100" by (simp add: q0_def)
  have "(2::rat) powi (- 1022) \<le> 2 powi (- 7)" by (simp only: pow2_le_iff)
  also have "\<dots> \<le> \<bar>q0\<bar>" using K1 unfolding a0 by simp
  finally have lo0: "2 powi (- 1022) \<le> \<bar>q0\<bar>" .
  have "\<bar>q0\<bar> \<le> 2 ^ 51" using K2 unfolding a0 by simp
  then have hi0: "\<bar>q0\<bar> < 2 powi 1023" using pow2_1023_gt by (rule le_less_trans)
  from round64_rel_error [OF lo0 hi0] obtain v0
    where v0: "round64 q0 = Fin v0" and e0: "\<bar>v0 - q0\<bar> \<le> \<bar>q0\<bar> * 2 powi (- 53)" by blast
  define q1 where "q1 = v0 * 100"
  have "\<bar>q1 - K\<bar> = 100 * \<bar>v0 - q0\<bar>" by (simp add: q1_def q0_def abs_if)
  also have "\<dots> \<le> 100 * (\<bar>q0\<bar> * 2 powi (- 53))" using e0 by simp
  also have "\<dots> \<le> 1 / 8" using K2 unfolding a0 by simp
  finally have d1: "\<bar>q1 - K\<bar> \<le> 1 / 8" .
  have "1 / 2 \<le> \<bar>q1\<bar>" using d1 K1 by linarith
  with pow2_m1022_le have lo1: "2 powi (- 1022) \<le> \<bar>q1\<bar>" by (rule order_trans)
  have "\<bar>K\<bar> \<le> 1125899906842624" using K2 by simp
  with d1 have "\<bar>q1\<bar> \<le> 2251799813685248" by linarith
  then have q1_hi: "\<bar>q1\<bar> \<le> 2 ^ 51" by simp
  then have hi1: "\<bar>q1\<bar> < 2 powi 1023" using pow2_1023_gt by (rule le_less_trans)
  from round64_rel_error [OF lo1 hi1] obtain v1
    where v1: "round64 q1 = Fin v1" and e1: "\<bar>v1 - q1\<bar> \<le> \<bar>q1\<bar> * 2 powi (- 53)" by blast
  have "\<bar>q1\<bar> * 2 powi (- 53) \<le> 1 / 4" using q1_hi by simp
  with e1 have "\<bar>v1 - q1\<bar> \<le> 1 / 4" by (rule order_trans)
  with d1 have "\<bar>v1 - K\<bar> \<le> 3 / 8" by linarith
  then have "\<lfloor>v1 + 1 / 2\<rfloor> = k"
    unfolding K_def by (intro floor_unique) linarith+
  then have "Math_round (round64 (v0 * 100)) = Fin (of_int k)"
    using v1 by (simp add: q1_def)
  with v0 show thesis unfolding q0_def K_def by (rule that)
qed

lemma koboToNaira_large:
  "koboToNaira (Fin 3587235626723295) = Fin (2295830801102909 / 64)"
  unfolding koboToNaira_def
  using round64_eval [of 45 "3587235626723295 / 100" 4591661602205818] by simp

lemma js_mul_large:
  "js_mul (Fin (2295830801102909 / 64)) (Fin 100) = Fin (7174471253446591 / 2)"
  using round64_eval [of 51 "2295830801102909 / 64 * 100" 7174471253446591] by simp

lemma Math_round_large:
  "Math_round (Fin (7174471253446591 / 2)) = Fin 3587235626723296"
  using Math_round_eval [of 3587235626723296 "7174471253446591 / 2"] by simp

text \<open>
  C10, as claimed: \<open>nairaToKobo (koboToNaira k) = k\<close> for every integer kobo
  amount. At \<open>k = 3587235626723295\<close> (an integer below \<open>2^52\<close>, so a binary64
  number) the quotient by 100 and the product with 100 each round, the product
  is \<open>k + 1/2\<close>, and \<open>Math.round\<close> gives \<open>k + 1\<close>.
\<close>

theorem currency_round_trip_counterexample:
  "nairaToKobo (koboToNaira (Fin 3587235626723295)) \<noteq> Fin 3587235626723295"
  unfolding koboToNaira_large nairaToKobo_def js_mul_large Math_round_large by simp

text \<open>
  C10, amended: for every integer \<open>k\<close> with \<open>\<bar>k\<bar> \<le> 2^50\<close>, the kobo amount \<open>k\<close>
  survives \<open>koboToNaira\<close> followed by \<open>nairaToKobo\<close>, and the naira amount
  \<open>k / 100\<close> (the binary64 number nearest to it) survives \<open>nairaToKobo\<close> followed
  by \<open>koboToNaira\<close>.
\<close>

theorem currency_round_trip:
  assumes "\<bar>k\<bar> \<le> 2 ^ 50"
  shows "nairaToKobo (koboToNaira (Fin (of_int k))) = Fin (of_int k)
       \<and> koboToNaira (nairaToKobo (js_lit (of_int k / 100))) = js_lit (of_int k / 100)"
proof -
  from kobo_round_trip_core [OF assms] obtain v
    where v: "round64 (of_int k / 100) = Fin v"
      and r: "Math_round (round64 (v * 100)) = Fin (of_int k)" by blast
  have 1: "koboToNaira (Fin (of_int k)) = Fin v"
    by (simp add: koboToNaira_def v)
  have 2: "nairaToKobo (Fin v) = Fin (of_int k)"
    by (simp add: nairaToKobo_def r)
  show ?thesis
    by (simp only: 1 2 js_lit_def v)
qed

theorem currency_round_trip_witness:
  "\<bar>1999 :: int\<bar> \<le> 2 ^ 50
   \<and> nairaToKobo (koboToNaira (Fin 1999)) = Fin 1999
   \<and> koboToNaira (nairaToKobo (js_lit (1999 / 100))) = js_lit (1999 / 100)"
  using currency_round_trip [of 1999] by simp

section \<open>Transaction references\<close>

lemma Number_toString_int: "\<bar>i\<bar> < 2 ^ 53 \<Longrightarrow> Number_toString (Fin (of_int i)) = Some (decimal i)"
proof -
  assume "\<bar>i\<bar> < 2 ^ 53"
  then have "(of_int \<bar>i\<bar> :: rat) < of_int (2 ^ 53)" by (simp only: of_int_less_iff)
  then show ?thesis by (simp add: Number_toString_def)
qed

lemma is_double_half: "is_double (1 / 2)"
  unfolding is_double_def
  using round64_eval [of "- 1" "1 / 2" "2 ^ 52"] by simp

lemma is_double_quarter: "is_double (1 / 4)"
  unfolding is_double_def
  using round64_eval [of "- 2" "1 / 4" "2 ^ 52"] by simp

lemma round64_500000: "round64 500000 = Fin 500000"
  using round64_eval [of 18 500000 8589934592000000] by simp

lemma round64_250000: "round64 250000 = Fin 250000"
  using round64_eval [of 17 250000 8589934592000000] by simp

lemma decimal_500000: "decimal 500000 = ''500000''"
  by (simp add: decimal_def decimal_nat.simps digit_char_def)

lemma decimal_250000: "decimal 250000 = ''250000''"
  by (simp add: decimal_def decimal_nat.simps digit_char_def)

lemma decimal_now: "decimal 1700000000000 = ''1700000000000''"
  by (simp add: decimal_def decimal_nat.simps digit_char_def)

text \<open>
  C9. With the clock reading \<open>now\<close> (a time value: an integer of magnitude at
  most \<open>8.64 * 10^15\<close>) and the draw \<open>rnd\<close> (a binary64 number in \<open>[0, 1)\<close>), the
  product \<open>rnd * 1000000\<close> rounds to a finite number \<open>v\<close> within \<open>2^-34\<close> of it,
  the integer \<open>r = \<lfloor>v\<rfloor>\<close> lies in \<open>0..999999\<close>, and the reference of the service
  and the one of the form screen are both \<open>TXN_\<close>, the decimal digits of \<open>now\<close>, an
  underscore and the decimal digits of \<open>r\<close>.
\<close>

theorem generateTransactionReference_pattern:
  assumes "is_double rnd" and "0 \<le> rnd" and "rnd < 1" and "\<bar>now\<bar> \<le> 8640000000000000"
  shows "\<exists>v. round64 (rnd * 1000000) = Fin v
           \<and> \<bar>v - rnd * 1000000\<bar> \<le> 1 / 2 ^ 34
           \<and> 0 \<le> \<lfloor>v\<rfloor> \<and> \<lfloor>v\<rfloor> \<le> 999999
           \<and> randomNum rnd = Fin (of_int \<lfloor>v\<rfloor>)
           \<and> generateTransactionReference now rnd
               = Some (''TXN_'' @ decimal now @ ''_'' @ decimal \<lfloor>v\<rfloor>)
           \<and> form_generateTransactionReference now rnd
               = Some (''TXN_'' @ decimal now @ ''_'' @ decimal \<lfloor>v\<rfloor>)"
proof -
  from randomNum_range [OF assms(1-3)] obtain v
    where v: "round64 (rnd * 1000000) = Fin v" "\<bar>v - rnd * 1000000\<bar> \<le> 1 / 2 ^ 34"
      "0 \<le> \<lfloor>v\<rfloor>" "\<lfloor>v\<rfloor> \<le> 999999" "randomNum rnd = Fin (of_int \<lfloor>v\<rfloor>)"
    by blast
  from v(3,4) have "\<bar>\<lfloor>v\<rfloor>\<bar> < 2 ^ 53" by simp
  then have "Number_toString (Fin (of_int \<lfloor>v\<rfloor>)) = Some (decimal \<lfloor>v\<rfloor>)"
    by (rule Number_toString_int)
  moreover from assms(4) have "\<bar>now\<bar> < 2 ^ 53" by simp
  then have "Number_toString (Fin (of_int now)) = Some (decimal now)"
    by (rule Number_toString_int)
  ultimately have "template_TXN (Fin (of_int now)) (randomNum rnd)
      = Some (''TXN_'' @ decimal now @ ''_'' @ decimal \<lfloor>v\<rfloor>)"
    by (simp only: template_TXN_def v(5) option.case)
  then show ?thesis
    using v unfolding generateTransactionReference_def form_generateTransactionReference_def
    by blast
qed

theorem generateTransactionReference_pattern_witness:
  "is_double (1 / 2) \<and> is_double (1 / 4)
   \<and> (0 :: rat) \<le> 1 / 2 \<and> (1 / 2 :: rat) < 1 \<and> (0 :: rat) \<le> 1 / 4 \<and> (1 / 4 :: rat) < 1
   \<and> \<bar>1700000000000 :: int\<bar> \<le> 8640000000000000
   \<and> generateTransactionReference 1700000000000 (1 / 2) = Some ''TXN_1700000000000_500000''
   \<and> form_generateTransactionReference 1700000000000 (1 / 2) = Some ''TXN_1700000000000_500000''
   \<and> generateTransactionReference 1700000000000 (1 / 4) = Some ''TXN_1700000000000_250000''
   \<and> form_generateTransactionReference 1700000000000 (1 / 4) = Some ''TXN_1700000000000_250000''"
proof -
  have n: "\<bar>1700000000000 :: int\<bar> \<le> 8640000000000000" by simp
  have h: "(0 :: rat) \<le> 1 / 2" "(1 / 2 :: rat) < 1" and q: "(0 :: rat) \<le> 1 / 4" "(1 / 4 :: rat) < 1"
    by simp_all
  from generateTransactionReference_pattern [OF is_double_half h n] obtain v
    where v: "round64 (1 / 2 * 1000000) = Fin v"
      "generateTransactionReference 1700000000000 (1 / 2)
         = Some (''TXN_'' @ decimal 1700000000000 @ ''_'' @ decimal \<lfloor>v\<rfloor>)"
      "form_generateTransactionReference 1700000000000 (1 / 2)
         = Some (''TXN_'' @ decimal 1700000000000 @ ''_'' @ decimal \<lfloor>v\<rfloor>)"
    by blast
  from v(1) have "v = 500000" by (simp add: round64_500000)
  then have fv: "\<lfloor>v\<rfloor> = 500000" by simp
  from generateTransactionReference_pattern [OF is_double_quarter q n] obtain w
    where w: "round64 (1 / 4 * 1000000) = Fin w"
      "generateTransactionReference 1700000000000 (1 / 4)
         = Some (''TXN_'' @ decimal 1700000000000 @ ''_'' @ decimal \<lfloor>w\<rfloor>)"
      "form_generateTransactionReference 1700000000000 (1 / 4)
         = Some (''TXN_'' @ decimal 1700000000000 @ ''_'' @ decimal \<lfloor>w\<rfloor>)"
    by blast
  from w(1) have "w = 250000" by (simp add: round64_250000)
  then have fw: "\<lfloor>w\<rfloor> = 250000" by simp
  show ?thesis
    using v(2,3) w(2,3) n h q is_double_half is_double_quarter
    unfolding fv fw decimal_500000 decimal_250000 decimal_now
    by simp
qed

end
